theory Spec2Isabelle
  imports Main
begin

section \<open>semifractal.py: a wedge of a one-dimensional automaton, rotated into a square\<close>

text \<open>
  The program is Python 2. Its integers are unbounded (\<open>int\<close> and \<open>long\<close>) and are
  modelled by \<^typ>\<open>int\<close>; \<open>a / b\<close> on two integers is floor division, which is
  \<open>div\<close> on \<^typ>\<open>int\<close>. A \<open>str\<close> is a sequence of bytes and is modelled by
  \<^typ>\<open>string\<close>. Exceptions are values of the type \<open>error\<close>; a function that can
  raise returns \<open>error + 'a\<close>, with \<open>Inl\<close> for the exception.
\<close>

subsection \<open>Exceptions and list indexing\<close>

text \<open>
  The two exceptions the modelled code can raise: \<open>IndexError\<close> from indexing a list
  out of range, \<open>ValueError\<close> from \<open>int('')\<close>.
\<close>

datatype error = IndexError | ValueError

text \<open>
  \<open>xs[i]\<close> in Python: a negative index counts from the end, and an index outside
  \<open>[-len(xs), len(xs))\<close> raises \<open>IndexError\<close>. \<open>py_index\<close> resolves the index to
  the position that is read or written.
\<close>

definition py_index :: "'a list \<Rightarrow> int \<Rightarrow> error + nat" where
  "py_index xs i =
     (let n = int (length xs);
          j = (if i < 0 then i + n else i)
      in if 0 \<le> j \<and> j < n then Inr (nat j) else Inl IndexError)"

subsection \<open>class Rules\<close>

definition rule150Black :: "bool list list" where
  "rule150Black =
     [[True, False, False],
      [False, True, False],
      [False, False, True],
      [True, True, True]]"

text \<open>
  \<open>Rules.rule150(above)\<close>: \<open>above in Rules.rule150Black\<close>, membership by equality.
  The parameter \<open>above\<close> is written \<open>cells\<close> here.
\<close>

definition rule150 :: "bool list \<Rightarrow> bool" where
  "rule150 cells = List.member rule150Black cells"

text \<open>
  The module \<open>random\<close> is a library: it is a parameter of the model. Its state has
  the type \<open>'r\<close>; \<open>random.seed(a)\<close> with an integer \<open>a\<close> replaces the state by one
  that depends on \<open>a\<close> only; \<open>random.randint(a, b)\<close> reads the state, returns an
  integer and the next state.
\<close>

record 'r random =
  random_seed :: "int \<Rightarrow> 'r"
  random_randint :: "int \<Rightarrow> int \<Rightarrow> 'r \<Rightarrow> int \<times> 'r"

text \<open>
  \<open>random.randint(a, b)\<close> returns an integer \<open>N\<close> with \<open>a \<le> N \<le> b\<close>, each with
  the same probability: these are its possible results.
\<close>

definition randint_outcomes :: "int \<Rightarrow> int \<Rightarrow> int list" where
  "randint_outcomes a b = [a..b]"

text \<open>
  A rule is called with the three cells above and may draw from the shared random
  source: it takes the state of the source and returns the next one.
\<close>

type_synonym 'r rule = "bool list \<Rightarrow> 'r \<Rightarrow> bool \<times> 'r"

text \<open>\<open>Rules.rule150\<close> as a rule: it leaves the random source alone.\<close>

definition rule150_rule :: "'r rule" where
  "rule150_rule cells rs = (rule150 cells, rs)"

text \<open>
  \<open>Rules.rule150randomized(above)\<close>: one draw \<open>random.randint(0, 2000)\<close> when
  \<open>above\<close> is in the table, none otherwise.
\<close>

definition rule150randomized :: "'r random \<Rightarrow> 'r rule" where
  "rule150randomized R cells rs =
     (if List.member rule150Black cells
      then (let (r, rs') = random_randint R 0 2000 rs in (r \<noteq> 0, rs'))
      else (False, rs))"

text \<open>
  A random source for counting outcomes. Its state is the list of the calls of
  \<open>randint\<close> made so far, each with the bounds it was given; every call
  \<open>randint(a, b)\<close> returns the \<open>k\<close>-th of its possible results
  \<open>randint_outcomes a b\<close>, counted from 0 (and \<open>a\<close> when there are not that many).
\<close>

definition kth_outcome :: "nat \<Rightarrow> (int \<times> int) list random" where
  "kth_outcome k =
     \<lparr>random_seed = (\<lambda>a. []),
      random_randint = (\<lambda>a b calls.
        (if k < length (randint_outcomes a b) then randint_outcomes a b ! k else a,
         calls @ [(a, b)]))\<rparr>"

text \<open>
  The results of \<open>rule150randomized\<close> on a neighbourhood, one for each of the equally
  likely results of its draw. The rule draws at most once; the bounds of the draw are
  read from the call the rule makes, and the \<open>k\<close>-th entry is what the rule returns
  when the draw returns its \<open>k\<close>-th possible result. Without a draw there is one
  result.
\<close>

definition outcome_table :: "bool list \<Rightarrow> bool list" where
  "outcome_table cells =
     (case snd (rule150randomized (kth_outcome 0) cells []) of
        [] \<Rightarrow> [fst (rule150randomized (kth_outcome 0) cells [])]
      | (a, b) # calls \<Rightarrow>
          map (\<lambda>k. fst (rule150randomized (kth_outcome k) cells []))
            [0 ..< length (randint_outcomes a b)])"

text \<open>The number of true cells of a neighbourhood.\<close>

definition count_true :: "bool list \<Rightarrow> nat" where
  "count_true cells = length (filter (\<lambda>c. c) cells)"

subsection \<open>Generator._generate_seed\<close>

text \<open>
  A seed as \<open>Generator\<close> receives it: \<open>None\<close>, an integer (\<open>int\<close> or \<open>long\<close>),
  or a string.
\<close>

datatype seed_value = NoSeed | IntSeed int | StrSeed string

text \<open>\<open>ord(x)\<close> of a character of a \<open>str\<close>: its byte value.\<close>

definition py_ord :: "char \<Rightarrow> nat" where
  "py_ord x = of_char x"

definition digit_char :: "nat \<Rightarrow> char" where
  "digit_char d = char_of (48 + d)"

text \<open>\<open>str(k)\<close> of a natural number: its decimal digits, with no leading zero.\<close>

fun py_str_nat :: "nat \<Rightarrow> string" where
  "py_str_nat k =
     (if k < 10 then [digit_char k]
      else py_str_nat (k div 10) @ [digit_char (k mod 10)])"

definition is_digit :: "char \<Rightarrow> bool" where
  "is_digit c = (48 \<le> (of_char c :: nat) \<and> (of_char c :: nat) \<le> 57)"

definition digit_val :: "char \<Rightarrow> nat" where
  "digit_val c = of_char c - 48"

text \<open>
  \<open>int(s)\<close> of a string: here \<open>s\<close> is always a concatenation of decimal
  representations (lemma \<open>to_int_argument_digits\<close>), so it is the empty string, on
  which \<open>int\<close> raises \<open>ValueError\<close>, or a string of digits, read in base ten (leading
  zeros allowed). The last branch is what \<open>int\<close> does on a string with a character
  that is no digit, sign or space; no call reaches it.
\<close>

definition py_int :: "string \<Rightarrow> error + int" where
  "py_int s =
     (if s = [] then Inl ValueError
      else if list_all is_digit s
      then Inr (int (foldl (\<lambda>a c. a * 10 + digit_val c) 0 s))
      else Inl ValueError)"

text \<open>
  \<open>to_int = lambda item : int(''.join([str(ord(x)) for x in str(item)]))\<close>, given
  \<open>str(item)\<close>.
\<close>

definition to_int :: "string \<Rightarrow> error + int" where
  "to_int item = py_int (concat (map (\<lambda>x. py_str_nat (py_ord x)) item))"

text \<open>
  \<open>_generate_seed(seed)\<close>. The clock is outside the program: \<open>now\<close> is
  \<open>str(time.time())\<close> at the call.
\<close>

definition generate_seed :: "seed_value \<Rightarrow> string \<Rightarrow> error + int" where
  "generate_seed seed_arg now =
     (case seed_arg of
        NoSeed \<Rightarrow> to_int now
      | IntSeed k \<Rightarrow> Inr k
      | StrSeed s \<Rightarrow> to_int s)"

text \<open>
  The integer that the decimal representations of the numbers of a list form when
  they are written one after the other, computed on numbers: each number shifts what
  stands before it by as many decimal places as it has digits.
\<close>

fun num_digits :: "nat \<Rightarrow> nat" where
  "num_digits k = (if k < 10 then 1 else Suc (num_digits (k div 10)))"

definition concat_decimal :: "nat list \<Rightarrow> nat" where
  "concat_decimal ks = foldl (\<lambda>a k. a * 10 ^ num_digits k + k) 0 ks"

subsection \<open>Generator._calculate_row and Generator.generate\<close>

text \<open>
  The generator \<open>_above(row)\<close>: the slices \<open>previous_row[i: i+3]\<close> of the row padded
  with two false cells on each side, for \<open>i\<close> in \<open>range(len(previous_row) - 2)\<close>.
\<close>

definition above_gen :: "bool list \<Rightarrow> bool list list" where
  "above_gen row =
     (let previous_row = [False, False] @ row @ [False, False]
      in map (\<lambda>i. take 3 (drop i previous_row)) [0 ..< length previous_row - 2])"

text \<open>
  The list comprehension \<open>[self.rule(i) for i in _above(previous_row)]\<close>: the rule
  is called on the slices from left to right, each call on the random source the
  call before it left.
\<close>

fun apply_rule :: "'r rule \<Rightarrow> bool list list \<Rightarrow> 'r \<Rightarrow> bool list \<times> 'r" where
  "apply_rule rule [] rs = ([], rs)"
| "apply_rule rule (w # ws) rs =
     (let (c, rs') = rule w rs;
          (cs, rs'') = apply_rule rule ws rs'
      in (c # cs, rs''))"

definition calculate_row :: "'r rule \<Rightarrow> bool list \<Rightarrow> 'r \<Rightarrow> bool list \<times> 'r" where
  "calculate_row rule previous_row rs = apply_rule rule (above_gen previous_row) rs"

text \<open>
  The loop \<open>for i in xrange(n - 1): row = self._calculate_row(row); yield row\<close>,
  with the number of rounds left; it returns the rows it yields.
\<close>

fun generate_loop :: "'r rule \<Rightarrow> nat \<Rightarrow> bool list \<Rightarrow> 'r \<Rightarrow> bool list list \<times> 'r" where
  "generate_loop rule 0 row rs = ([], rs)"
| "generate_loop rule (Suc k) row rs =
     (let (row', rs') = calculate_row rule row rs;
          (rows, rs'') = generate_loop rule k row' rs'
      in (row' # rows, rs''))"

text \<open>
  \<open>generate(n)\<close> for an integer \<open>n\<close>: the rows the generator yields, in order, and the
  random source after the last one. \<open>xrange(n - 1)\<close> is empty when \<open>n \<le> 1\<close>. (The
  branch \<open>n == None\<close> yields rows without end; \<open>create_grid\<close> never takes it, since
  it computes \<open>n * 2 - 1\<close> first.) \<open>create_grid\<close> consumes the generator row by row,
  see \<open>create_grid_loop\<close>.
\<close>

definition generate :: "'r rule \<Rightarrow> int \<Rightarrow> 'r \<Rightarrow> bool list list \<times> 'r" where
  "generate rule n rs =
     (let row = [True];
          (rows, rs') = generate_loop rule (nat (n - 1)) row rs
      in (row # rows, rs'))"

subsection \<open>class Grid\<close>

record grid =
  width :: int
  height :: int
  center :: "int \<times> int"
  seed :: "int option"
  array :: "bool list list"

text \<open>
  \<open>Grid.__init__(x, y, seed)\<close>: \<open>xrange\<close> of a negative number is empty, as
  \<open>replicate (nat k)\<close> is.
\<close>

definition Grid_init :: "int \<Rightarrow> int \<Rightarrow> int option \<Rightarrow> grid" where
  "Grid_init x y seed_arg =
     \<lparr>width = x, height = y, center = (x div 2, y div 2), seed = seed_arg,
      array = replicate (nat y) (replicate (nat x) False)\<rparr>"

text \<open>\<open>Grid.get(x, y)\<close>: \<open>self.array[y][x]\<close>.\<close>

definition Grid_get :: "grid \<Rightarrow> int \<Rightarrow> int \<Rightarrow> error + bool" where
  "Grid_get g x y =
     (case py_index (array g) y of
        Inl e \<Rightarrow> Inl e
      | Inr r \<Rightarrow>
          (case py_index (array g ! r) x of
             Inl e \<Rightarrow> Inl e
           | Inr c \<Rightarrow> Inr (array g ! r ! c)))"

text \<open>\<open>Grid.set(x, y, value)\<close>: \<open>self.array[y][x] = value\<close>.\<close>

definition Grid_set :: "grid \<Rightarrow> int \<Rightarrow> int \<Rightarrow> bool \<Rightarrow> error + grid" where
  "Grid_set g x y v =
     (case py_index (array g) y of
        Inl e \<Rightarrow> Inl e
      | Inr r \<Rightarrow>
          (case py_index (array g ! r) x of
             Inl e \<Rightarrow> Inl e
           | Inr c \<Rightarrow> Inr (g\<lparr>array := (array g)[r := (array g ! r)[c := v]]\<rparr>)))"

subsection \<open>Generator.create_grid\<close>

record 'r generator =
  self_seed :: seed_value
  self_rule :: "'r rule"

text \<open>
  The four coordinates that the body of the loops passes to \<open>grid.set\<close>, in the
  order of the calls.
\<close>

definition rotations :: "int \<Rightarrow> int \<Rightarrow> int \<Rightarrow> int \<Rightarrow> (int \<times> int) list" where
  "rotations center_x center_y raw_x raw_y =
     [(center_x + raw_x, center_y + raw_y),
      (center_x - raw_x, center_y - raw_y),
      (center_x - raw_y, center_y + raw_x),
      (center_x + raw_y, center_y - raw_x)]"

text \<open>Calls \<open>grid.set(x, y)\<close> one after the other; an exception ends them.\<close>

fun Grid_set_all :: "grid \<Rightarrow> (int \<times> int) list \<Rightarrow> error + grid" where
  "Grid_set_all g [] = Inr g"
| "Grid_set_all g ((x, y) # ps) =
     (case Grid_set g x y True of
        Inl e \<Rightarrow> Inl e
      | Inr g' \<Rightarrow> Grid_set_all g' ps)"

text \<open>The inner loop \<open>for i, cell in enumerate(row)\<close>, from position \<open>i\<close> on.\<close>

fun set_cells :: "int \<Rightarrow> int \<Rightarrow> int \<Rightarrow> int \<Rightarrow> bool list \<Rightarrow> grid \<Rightarrow> error + grid" where
  "set_cells center_x center_y index i [] g = Inr g"
| "set_cells center_x center_y index i (cell # row) g =
     (if cell
      then (case Grid_set_all g (rotations center_x center_y index (i - index)) of
              Inl e \<Rightarrow> Inl e
            | Inr g' \<Rightarrow> set_cells center_x center_y index (i + 1) row g')
      else set_cells center_x center_y index (i + 1) row g)"

text \<open>
  The outer loop \<open>for index, row in enumerate(self.generate(n))\<close>, with the loop of
  the generator inside it, as the program runs them: the body writes the row in hand,
  and only then the generator draws the next row. \<open>k\<close> counts the rounds that
  \<open>xrange(n - 1)\<close> has left; an exception in a write ends the loop and leaves the random
  source as it is then.
\<close>

fun create_grid_loop ::
  "'r rule \<Rightarrow> int \<Rightarrow> int \<Rightarrow> int \<Rightarrow> nat \<Rightarrow> bool list \<Rightarrow> grid \<Rightarrow> 'r \<Rightarrow> (error + grid) \<times> 'r" where
  "create_grid_loop rule center_x center_y index 0 row g rs =
     (set_cells center_x center_y index 0 row g, rs)"
| "create_grid_loop rule center_x center_y index (Suc k) row g rs =
     (case set_cells center_x center_y index 0 row g of
        Inl e \<Rightarrow> (Inl e, rs)
      | Inr g' \<Rightarrow>
          (let (row', rs') = calculate_row rule row rs
           in create_grid_loop rule center_x center_y (index + 1) k row' g' rs'))"

text \<open>
  \<open>create_grid(n)\<close>, called with the shared random source in the state \<open>rs\<close>; it
  returns the grid or the exception, and the random source as the call leaves it.
  The generator starts with the row \<open>[True]\<close> and has \<open>n - 1\<close> rounds to go.
\<close>

definition create_grid ::
  "'r random \<Rightarrow> 'r generator \<Rightarrow> string \<Rightarrow> int \<Rightarrow> 'r \<Rightarrow> (error + grid) \<times> 'r" where
  "create_grid R self now n rs =
     (let size = n * 2 - 1;
          g = Grid_init size size None;
          center_x = fst (center g);
          center_y = snd (center g)
      in case generate_seed (self_seed self) now of
           Inl e \<Rightarrow> (Inl e, rs)
         | Inr s \<Rightarrow>
             create_grid_loop (self_rule self) center_x center_y 0 (nat (n - 1)) [True]
               (g\<lparr>seed := Some s\<rparr>) (random_seed R s))"

text \<open>
  A small random source to run the program on: the state is a counter,
  \<open>random.seed\<close> sets it from the seed, and a draw from \<open>[a, b]\<close> reads it.
\<close>

definition counter_random :: "nat random" where
  "counter_random =
     \<lparr>random_seed = (\<lambda>a. nat \<bar>a\<bar>),
      random_randint = (\<lambda>a b rs. (a + int rs mod (b - a + 1), Suc rs))\<rparr>"

text \<open>
  What \<open>Grid.__init__\<close> establishes and \<open>Grid.set\<close> keeps: there are \<open>height\<close>
  rows, each of \<open>width\<close> cells.
\<close>

definition grid_inv :: "grid \<Rightarrow> bool" where
  "grid_inv g =
     (length (array g) = nat (height g)
      \<and> list_all (\<lambda>row. length row = nat (width g)) (array g))"

subsection \<open>The writes of create_grid\<close>

text \<open>
  The body of the outer loop on the rows of a list, one after the other: on the rows
  that \<open>generate\<close> yields it computes the grid of \<open>create_grid_loop\<close> (lemma
  \<open>create_grid_loop_rows\<close>).
\<close>

fun set_rows :: "int \<Rightarrow> int \<Rightarrow> int \<Rightarrow> bool list list \<Rightarrow> grid \<Rightarrow> error + grid" where
  "set_rows center_x center_y index [] g = Inr g"
| "set_rows center_x center_y index (row # rows) g =
     (case set_cells center_x center_y index 0 row g of
        Inl e \<Rightarrow> Inl e
      | Inr g' \<Rightarrow> set_rows center_x center_y (index + 1) rows g')"

text \<open>
  The coordinates that the loops of \<open>create_grid\<close> pass to \<open>grid.set\<close>, in the order
  of the calls, as long as no call raises: \<open>row_writes\<close> follows the inner loop,
  \<open>grid_writes\<close> the outer one (lemmas \<open>set_cells_writes\<close> and \<open>set_rows_writes\<close>:
  the loops are these calls one after the other).
\<close>

fun row_writes :: "int \<Rightarrow> int \<Rightarrow> int \<Rightarrow> int \<Rightarrow> bool list \<Rightarrow> (int \<times> int) list" where
  "row_writes center_x center_y index i [] = []"
| "row_writes center_x center_y index i (cell # row) =
     (if cell then rotations center_x center_y index (i - index) else [])
     @ row_writes center_x center_y index (i + 1) row"

fun grid_writes :: "int \<Rightarrow> int \<Rightarrow> int \<Rightarrow> bool list list \<Rightarrow> (int \<times> int) list" where
  "grid_writes center_x center_y index [] = []"
| "grid_writes center_x center_y index (row # rows) =
     row_writes center_x center_y index 0 row
     @ grid_writes center_x center_y (index + 1) rows"

definition create_grid_writes ::
  "'r random \<Rightarrow> 'r generator \<Rightarrow> string \<Rightarrow> int \<Rightarrow> (int \<times> int) list" where
  "create_grid_writes R self now n =
     (case generate_seed (self_seed self) now of
        Inl e \<Rightarrow> []
      | Inr s \<Rightarrow>
          grid_writes ((n * 2 - 1) div 2) ((n * 2 - 1) div 2) 0
            (fst (generate (self_rule self) n (random_seed R s))))"

text \<open>The cell in column \<open>x\<close> of row \<open>y\<close>, for coordinates inside the grid.\<close>

definition cell :: "grid \<Rightarrow> int \<Rightarrow> int \<Rightarrow> bool" where
  "cell g x y = (array g ! nat y ! nat x)"

section \<open>Theorems\<close>

subsection \<open>The rules\<close>

lemma member_rule150Black:
  "List.member rule150Black [a, b, c] = (a \<noteq> (b \<noteq> c))"
  unfolding rule150Black_def by (cases a; cases b; cases c) simp_all

text \<open>
  C4. On a neighbourhood of three cells, \<open>rule150\<close> is true exactly when the number
  of true cells is odd, that is, it is the exclusive or of the three cells, and the
  neighbourhoods it accepts are the four of the table.
\<close>

theorem rule150_parity:
  "rule150 [a, b, c] = odd (count_true [a, b, c])
   \<and> rule150 [a, b, c] = (a \<noteq> (b \<noteq> c))
   \<and> rule150 [a, b, c] =
       ((a, b, c) = (True, False, False) \<or> (a, b, c) = (False, True, False)
        \<or> (a, b, c) = (False, False, True) \<or> (a, b, c) = (True, True, True))"
  unfolding rule150_def member_rule150Black count_true_def
  by (cases a; cases b; cases c) simp_all

theorem rule150_parity_witness:
  "rule150 [True, True, True] \<and> odd (count_true [True, True, True])
   \<and> \<not> rule150 [True, False, True] \<and> even (count_true [True, False, True])"
  using rule150_parity [of True True True] rule150_parity [of True False True]
  by (simp add: count_true_def)

subsection \<open>The grid\<close>

lemma wrap_mod:
  fixes i n :: int
  assumes "- n \<le> i" "i < n"
  shows "(if i < 0 then i + n else i) = i mod n"
proof (cases "i < 0")
  case True
  have "(i + n) mod n = i + n" using assms True by (intro mod_pos_pos_trivial) auto
  then show ?thesis using True by simp
next
  case False
  then show ?thesis using assms by (simp add: mod_pos_pos_trivial)
qed

lemma py_index_in_range:
  assumes "- int (length xs) \<le> i" "i < int (length xs)"
  shows "py_index xs i = Inr (nat (i mod int (length xs)))"
    and "nat (i mod int (length xs)) < length xs"
proof -
  have w: "(if i < 0 then i + int (length xs) else i) = i mod int (length xs)"
    using assms by (rule wrap_mod)
  have pos: "0 < int (length xs)" using assms by linarith
  have b: "0 \<le> i mod int (length xs)" "i mod int (length xs) < int (length xs)"
    using pos by simp_all
  show "py_index xs i = Inr (nat (i mod int (length xs)))"
    unfolding py_index_def Let_def w using b by simp
  show "nat (i mod int (length xs)) < length xs" using b by linarith
qed

lemma py_index_out_of_range:
  assumes "i < - int (length xs) \<or> int (length xs) \<le> i"
  shows "py_index xs i = Inl IndexError"
  using assms unfolding py_index_def Let_def by auto

lemma py_index_Inr_less: "py_index xs i = Inr k \<Longrightarrow> k < length xs"
  unfolding py_index_def Let_def by (auto split: if_splits)

lemma py_index_Inl: "py_index xs i = Inl e \<Longrightarrow> e = IndexError"
  unfolding py_index_def Let_def by (auto split: if_splits)

lemma grid_inv_Grid_init: "grid_inv (Grid_init w h sd)"
  by (simp add: grid_inv_def Grid_init_def list_all_length)

lemma Grid_set_preserves_inv:
  assumes "grid_inv g" and "Grid_set g x y v = Inr g'"
  shows "grid_inv g'"
proof -
  from assms(2) obtain r c where r: "py_index (array g) y = Inr r"
    and g': "g' = g\<lparr>array := (array g)[r := (array g ! r)[c := v]]\<rparr>"
    by (auto simp: Grid_set_def split: sum.splits)
  have rl: "r < length (array g)" using r by (rule py_index_Inr_less)
  have "length ((array g)[r := (array g ! r)[c := v]] ! k) = nat (width g)"
    if "k < length (array g)" for k
    using that assms(1) rl
    by (cases "k = r") (simp_all add: grid_inv_def list_all_length)
  then show ?thesis
    using assms(1) unfolding g' by (simp add: grid_inv_def list_all_length)
qed

text \<open>
  C7. On a grid as \<open>Grid.__init__\<close> builds it, for any width and height, \<open>get\<close>
  and \<open>set\<close> at a coordinate with \<open>x \<ge> width\<close> or \<open>y \<ge> height\<close> raise
  \<open>IndexError\<close>, the out-of-bounds exception of list indexing: nothing is returned
  and nothing is written.
\<close>

theorem Grid_out_of_bounds:
  assumes "w \<le> x \<or> h \<le> y"
  shows "Grid_get (Grid_init w h sd) x y = Inl IndexError
     \<and> Grid_set (Grid_init w h sd) x y v = Inl IndexError"
proof (cases "py_index (array (Grid_init w h sd)) y")
  case (Inl e)
  then show ?thesis
    by (simp add: Grid_get_def Grid_set_def py_index_Inl [OF Inl])
next
  case (Inr r)
  have r: "r < nat h" using py_index_Inr_less [OF Inr] by (simp add: Grid_init_def)
  have "\<not> h \<le> y"
  proof
    assume "h \<le> y"
    then have "y < - int (length (array (Grid_init w h sd)))
        \<or> int (length (array (Grid_init w h sd))) \<le> y"
      by (auto simp: Grid_init_def)
    then have "py_index (array (Grid_init w h sd)) y = Inl IndexError"
      by (rule py_index_out_of_range)
    with Inr show False by simp
  qed
  with assms have "w \<le> x" by simp
  have row: "array (Grid_init w h sd) ! r = replicate (nat w) False"
    using r by (simp add: Grid_init_def)
  have "py_index (array (Grid_init w h sd) ! r) x = Inl IndexError"
    unfolding row using \<open>w \<le> x\<close> by (intro py_index_out_of_range) auto
  then show ?thesis by (simp add: Grid_get_def Grid_set_def Inr)
qed


theorem Grid_out_of_bounds_witness:
  "((1::int) \<le> 1 \<or> (1::int) \<le> 0)
   \<and> Grid_get (Grid_init 1 1 None) 1 0 = Inl IndexError
   \<and> Grid_set (Grid_init 1 1 None) 1 0 True = Inl IndexError
   \<and> Grid_get (Grid_init 1 1 None) 0 0 = Inr False"
  using Grid_out_of_bounds [of 1 1 1 0 None True]
  by (simp add: Grid_get_def Grid_init_def py_index_def)

lemma Grid_access_in_range:
  assumes "grid_inv g"
    and "- width g \<le> x" and "x < width g"
    and "- height g \<le> y" and "y < height g"
  shows "Grid_get g x y = Inr (array g ! nat (y mod height g) ! nat (x mod width g))
     \<and> Grid_set g x y v =
         Inr (g\<lparr>array := (array g)[nat (y mod height g) :=
                  (array g ! nat (y mod height g))[nat (x mod width g) := v]]\<rparr>)"
proof -
  have len: "int (length (array g)) = height g"
    using assms unfolding grid_inv_def by auto
  have y: "py_index (array g) y = Inr (nat (y mod height g))"
    and r: "nat (y mod height g) < length (array g)"
    using py_index_in_range [of "array g" y] assms unfolding len by simp_all
  have "length (array g ! nat (y mod height g)) = nat (width g)"
    using assms(1) r unfolding grid_inv_def list_all_length by simp
  then have wid: "int (length (array g ! nat (y mod height g))) = width g"
    using assms by auto
  have x: "py_index (array g ! nat (y mod height g)) x = Inr (nat (x mod width g))"
    using py_index_in_range(1) [of "array g ! nat (y mod height g)" x] assms
    unfolding wid by simp
  show ?thesis by (simp add: Grid_get_def Grid_set_def x y)
qed

text \<open>
  C10. On a grid of \<open>height\<close> rows of \<open>width\<close> cells, \<open>get\<close> and \<open>set\<close> at
  \<open>-width \<le> x < width\<close> and \<open>-height \<le> y < height\<close> do not fail: they read and
  write the cell at \<open>(x mod width, y mod height)\<close>. A negative coordinate in that
  range is therefore not rejected; it counts from the end.
\<close>

theorem Grid_negative_wraps:
  assumes "grid_inv g"
    and "- width g \<le> x" and "x < width g"
    and "- height g \<le> y" and "y < height g"
  shows "Grid_get g x y = Inr (array g ! nat (y mod height g) ! nat (x mod width g))
     \<and> Grid_set g x y v =
         Inr (g\<lparr>array := (array g)[nat (y mod height g) :=
                  (array g ! nat (y mod height g))[nat (x mod width g) := v]]\<rparr>)"
  using assms by (rule Grid_access_in_range)

theorem Grid_negative_wraps_witness:
  "grid_inv (Grid_init 3 2 None)
   \<and> Grid_get (Grid_init 3 2 None) (- 1) (- 2) = Inr False
   \<and> Grid_set (Grid_init 3 2 None) (- 1) (- 2) True =
       Inr (Grid_init 3 2 None\<lparr>array := [[False, False, True], [False, False, False]]\<rparr>)
   \<and> Grid_set (Grid_init 3 2 None) (- 4) (- 2) True = Inl IndexError"
  using Grid_negative_wraps [of "Grid_init 3 2 None" "- 1" "- 2" True]
  by (simp add: grid_inv_def Grid_init_def Grid_set_def py_index_def numeral_2_eq_2 numeral_3_eq_3)

subsection \<open>The rows\<close>

lemma length_above_gen: "length (above_gen row) = length row + 2"
  unfolding above_gen_def Let_def by (simp del: upt_Suc)

lemma above_gen_windows: "list_all (\<lambda>w. length w = 3) (above_gen row)"
  unfolding above_gen_def Let_def list_all_iff
proof
  fix w
  assume "w \<in> set (map (\<lambda>i. take 3 (drop i ([False, False] @ row @ [False, False])))
                     [0 ..< length ([False, False] @ row @ [False, False]) - 2])"
  then obtain i where "i < length row + 2"
    and "w = take 3 (drop i ([False, False] @ row @ [False, False]))"
    by (auto simp del: upt_Suc)
  then show "length w = 3" by simp
qed

lemma length_apply_rule: "length (fst (apply_rule rule ws rs)) = length ws"
  by (induction ws arbitrary: rs) (simp_all add: split_beta Let_def)

lemma length_calculate_row:
  "length (fst (calculate_row rule row rs)) = length row + 2"
  by (simp add: calculate_row_def length_apply_rule length_above_gen)

lemma length_generate_loop: "length (fst (generate_loop rule k row rs)) = k"
  by (induction k arbitrary: row rs) (simp_all add: split_beta Let_def)

lemma generate_loop_row_length:
  "j < k \<Longrightarrow>
     length (fst (generate_loop rule k row rs) ! j) = length row + 2 * Suc j"
proof (induction k arbitrary: row rs j)
  case 0
  then show ?case by simp
next
  case (Suc k)
  show ?case
  proof (cases j)
    case 0
    then show ?thesis by (simp add: split_beta Let_def length_calculate_row)
  next
    case (Suc i)
    with Suc.prems have "i < k" by simp
    from Suc.IH [OF this] show ?thesis
      using Suc by (simp add: split_beta Let_def length_calculate_row)
  qed
qed

lemma generate_rows:
  "fst (generate rule n rs) = [True] # fst (generate_loop rule (nat (n - 1)) [True] rs)"
  by (simp add: generate_def split_beta Let_def)

lemma generate_nth_length:
  "k < length (fst (generate rule n rs)) \<Longrightarrow>
     length (fst (generate rule n rs) ! k) = 2 * k + 1"
  unfolding generate_rows
  by (cases k) (simp_all add: length_generate_loop generate_loop_row_length)

text \<open>
  C3. For every rule and every \<open>n \<ge> 1\<close>, \<open>generate(n)\<close> yields \<open>n\<close> rows; the
  first is \<open>[True]\<close>, each later row is two cells longer than the row before it (a
  row has one cell for each of the \<open>len + 2\<close> slices of the padded row before it), and
  so row \<open>k\<close>, counted from 0, has \<open>2k + 1\<close> cells.
\<close>

theorem generate_row_lengths:
  assumes "1 \<le> n"
  shows "length (fst (generate rule n rs)) = nat n
     \<and> fst (generate rule n rs) ! 0 = [True]
     \<and> (\<forall>k. Suc k < nat n \<longrightarrow>
           length (fst (generate rule n rs) ! Suc k) =
             length (fst (generate rule n rs) ! k) + 2)
     \<and> (\<forall>k < nat n. length (fst (generate rule n rs) ! k) = 2 * k + 1)
     \<and> (\<forall>row rs'. length (above_gen row) = length row + 2
           \<and> length (fst (calculate_row rule row rs')) = length row + 2)"
proof -
  let ?rows = "fst (generate rule n rs)"
  have len: "length ?rows = nat n"
    using assms by (simp add: generate_rows length_generate_loop)
  have first: "?rows ! 0 = [True]" by (simp add: generate_rows)
  have each: "length (?rows ! k) = 2 * k + 1" if "k < nat n" for k
    using generate_nth_length [of k rule n rs] that unfolding len by simp
  have step: "length (?rows ! Suc k) = length (?rows ! k) + 2" if "Suc k < nat n" for k
    using each [of k] each [of "Suc k"] that by simp
  show ?thesis
    using len first each step by (simp add: length_above_gen length_calculate_row)
qed

theorem generate_row_lengths_witness:
  "(1::int) \<le> 3
   \<and> fst (generate rule150_rule 3 ()) =
       [[True], [True, True, True], [True, False, True, False, True]]
   \<and> length (fst (generate rule150_rule 3 ())) = 3
   \<and> length (fst (generate rule150_rule 3 ()) ! 2) = 5"
proof -
  have rows: "fst (generate rule150_rule 3 ()) =
       [[True], [True, True, True], [True, False, True, False, True]]"
    by code_simp
  show ?thesis
    using generate_row_lengths [of 3 rule150_rule "()"] rows by simp
qed

subsection \<open>The randomized rule\<close>

lemma rule150randomized_draw:
  "rule150 cells \<Longrightarrow>
     fst (rule150randomized R cells rs) = (fst (random_randint R 0 2000 rs) \<noteq> 0)"
  by (simp add: rule150randomized_def rule150_def split_beta)

lemma rule150randomized_calls:
  "rule150 cells \<Longrightarrow>
     snd (rule150randomized (kth_outcome k) cells calls) = calls @ [(0, 2000)]"
  by (simp add: rule150randomized_def rule150_def kth_outcome_def split_beta)

lemma rule150randomized_no_call:
  "\<not> rule150 cells \<Longrightarrow> rule150randomized R cells rs = (False, rs)"
  by (simp add: rule150randomized_def rule150_def)

lemma length_randint_outcomes: "length (randint_outcomes 0 2000) = 2001"
  by (simp add: randint_outcomes_def)

lemma rule150randomized_kth:
  assumes "rule150 cells" and "k < 2001"
  shows "fst (rule150randomized (kth_outcome k) cells []) = (k \<noteq> 0)"
proof -
  have "randint_outcomes 0 2000 ! k = int k"
    using assms(2) by (simp add: randint_outcomes_def)
  then show ?thesis
    using assms
    by (simp add: rule150randomized_draw kth_outcome_def length_randint_outcomes)
qed

lemma outcome_table_accepted:
  assumes "rule150 cells"
  shows "outcome_table cells = False # replicate 2000 True"
proof -
  have "outcome_table cells =
      map (\<lambda>k. fst (rule150randomized (kth_outcome k) cells [])) [0 ..< 2001]"
    using rule150randomized_calls [OF assms, of 0 "[]"]
    by (simp add: outcome_table_def length_randint_outcomes del: upt_Suc)
  also have "\<dots> = map (\<lambda>k. k \<noteq> 0) [0 ..< 2001]"
    by (rule map_cong) (simp_all add: rule150randomized_kth [OF assms] del: upt_Suc)
  also have "\<dots> = False # replicate 2000 True"
    by (rule nth_equalityI) (simp_all add: nth_Cons' del: upt_Suc)
  finally show ?thesis .
qed

text \<open>
  C2. On a neighbourhood that \<open>rule150\<close> accepts, \<open>rule150randomized\<close> calls
  \<open>randint(0, 2000)\<close> once and returns whether the draw is not 0. The call has 2001
  possible results, 0 to 2000 with both ends included, and the rule returns false on
  exactly one of them: under a uniform draw it is suppressed with probability 1/2001,
  not the 1/2000 (0.05%) of its docstring. On a neighbourhood that \<open>rule150\<close> rejects
  it returns false without a draw, whatever the random source.
\<close>

theorem rule150randomized_suppression:
  "(rule150 cells \<longrightarrow>
      fst (rule150randomized R cells rs) = (fst (random_randint R 0 2000 rs) \<noteq> 0)
      \<and> snd (rule150randomized (kth_outcome k) cells calls) = calls @ [(0, 2000)]
      \<and> outcome_table cells = False # replicate 2000 True
      \<and> length (filter (\<lambda>v. \<not> v) (outcome_table cells)) = 1
      \<and> length (outcome_table cells) = 2001)
   \<and> (\<not> rule150 cells \<longrightarrow>
        rule150randomized R cells rs = (False, rs) \<and> outcome_table cells = [False])"
proof -
  have "outcome_table cells = [False]" if "\<not> rule150 cells"
    by (simp add: outcome_table_def rule150randomized_no_call [OF that])
  then show ?thesis
    by (simp add: rule150randomized_draw rule150randomized_calls outcome_table_accepted
          rule150randomized_no_call)
qed

theorem rule150randomized_suppression_witness:
  "rule150 [True, False, False]
   \<and> \<not> fst (rule150randomized (kth_outcome 0) [True, False, False] [])
   \<and> fst (rule150randomized (kth_outcome 2000) [True, False, False] [])
   \<and> snd (rule150randomized (kth_outcome 2000) [True, False, False] []) = [(0, 2000)]
   \<and> length (filter (\<lambda>v. \<not> v) (outcome_table [True, False, False])) = 1
   \<and> length (outcome_table [True, False, False]) = 2001
   \<and> \<not> rule150 [True, True, False]
   \<and> rule150randomized (kth_outcome 0) [True, True, False] [] = (False, [])
   \<and> outcome_table [True, True, False] = [False]"
proof -
  have a: "rule150 [True, False, False]" and r: "\<not> rule150 [True, True, False]"
    by (simp_all add: rule150_def rule150Black_def)
  have z: "fst (random_randint (kth_outcome 0) 0 2000 []) = 0"
    and t: "fst (random_randint (kth_outcome 2000) 0 2000 []) = 2000"
    by (simp_all add: kth_outcome_def randint_outcomes_def)
  from rule150randomized_suppression [of "[True, False, False]" "kth_outcome 0" "[]" 2000 "[]"]
    rule150randomized_suppression [of "[True, False, False]" "kth_outcome 2000" "[]" 2000 "[]"]
    rule150randomized_suppression [of "[True, True, False]" "kth_outcome 0" "[]" 0 "[]"]
    a r z t
  show ?thesis by simp
qed

subsection \<open>Seeds\<close>

lemma digit_char_props:
  assumes "d < 10"
  shows "is_digit (digit_char d)" and "digit_val (digit_char d) = d"
  using assms by (simp_all add: is_digit_def digit_val_def digit_char_def)

declare py_str_nat.simps [simp del] num_digits.simps [simp del]

lemma py_str_nat_digits: "list_all is_digit (py_str_nat k)"
proof (induction k rule: py_str_nat.induct)
  case (1 k)
  show ?case
  proof (cases "k < 10")
    case True
    then show ?thesis by (simp add: py_str_nat.simps [of k] digit_char_props)
  next
    case False
    with 1 show ?thesis by (simp add: py_str_nat.simps [of k] digit_char_props)
  qed
qed

lemma py_str_nat_not_Nil: "py_str_nat k \<noteq> []"
  by (subst py_str_nat.simps) simp

lemma length_py_str_nat: "length (py_str_nat k) = num_digits k"
proof (induction k rule: py_str_nat.induct)
  case (1 k)
  then show ?case
    by (cases "k < 10") (simp_all add: py_str_nat.simps [of k] num_digits.simps [of k])
qed

lemma foldl_digits_start:
  "foldl (\<lambda>a c. a * 10 + digit_val c) a s =
     a * 10 ^ length s + foldl (\<lambda>a c. a * 10 + digit_val c) 0 s"
proof (induction s rule: rev_induct)
  case Nil
  then show ?case by simp
next
  case (snoc c s)
  then show ?case by (simp add: algebra_simps)
qed

lemma value_py_str_nat: "foldl (\<lambda>a c. a * 10 + digit_val c) 0 (py_str_nat k) = k"
proof (induction k rule: py_str_nat.induct)
  case (1 k)
  show ?case
  proof (cases "k < 10")
    case True
    then show ?thesis by (simp add: py_str_nat.simps [of k] digit_char_props)
  next
    case False
    with 1 show ?thesis by (simp add: py_str_nat.simps [of k] digit_char_props)
  qed
qed

lemma to_int_argument_digits:
  "list_all is_digit (concat (map (\<lambda>x. py_str_nat (py_ord x)) item))"
  by (induction item) (simp_all add: py_str_nat_digits)

lemma to_int_argument_Nil:
  "concat (map (\<lambda>x. py_str_nat (py_ord x)) item) = [] \<longleftrightarrow> item = []"
  by (cases item) (simp_all add: py_str_nat_not_Nil)

lemma value_concat:
  "foldl (\<lambda>a c. a * 10 + digit_val c) 0 (concat (map py_str_nat ks)) = concat_decimal ks"
proof (induction ks rule: rev_induct)
  case Nil
  then show ?case by (simp add: concat_decimal_def)
next
  case (snoc k ks)
  have "foldl (\<lambda>a c. a * 10 + digit_val c) 0 (concat (map py_str_nat (ks @ [k]))) =
      foldl (\<lambda>a c. a * 10 + digit_val c) (concat_decimal ks) (py_str_nat k)"
    using snoc by simp
  also have "\<dots> = concat_decimal ks * 10 ^ num_digits k + k"
    by (subst foldl_digits_start) (simp add: length_py_str_nat value_py_str_nat)
  finally show ?case by (simp add: concat_decimal_def)
qed

lemma to_int_Nil: "to_int [] = Inl ValueError"
  by (simp add: to_int_def py_int_def)

lemma to_int_value:
  assumes "item \<noteq> []"
  shows "to_int item = Inr (int (concat_decimal (map py_ord item)))"
proof -
  let ?arg = "concat (map (\<lambda>x. py_str_nat (py_ord x)) item)"
  have eq: "?arg = concat (map py_str_nat (map py_ord item))"
    by (induction item) simp_all
  have ne: "?arg \<noteq> []"
    using to_int_argument_Nil [of item] assms by blast
  have val: "foldl (\<lambda>a c. a * 10 + digit_val c) 0 ?arg = concat_decimal (map py_ord item)"
    unfolding eq by (rule value_concat)
  have "py_int ?arg = Inr (int (concat_decimal (map py_ord item)))"
    unfolding py_int_def using ne to_int_argument_digits [of item] val
    by (simp only: if_False if_True)
  then show ?thesis by (simp only: to_int_def)
qed

subsection \<open>The assembly of the grid\<close>

lemma Grid_set_all_append:
  "Grid_set_all g (ps @ qs) =
     (case Grid_set_all g ps of Inl e \<Rightarrow> Inl e | Inr g' \<Rightarrow> Grid_set_all g' qs)"
  by (induction ps arbitrary: g) (auto split: sum.splits)

lemma set_cells_writes:
  "set_cells cx cy index i row g = Grid_set_all g (row_writes cx cy index i row)"
  by (induction row arbitrary: i g) (simp_all add: Grid_set_all_append split: sum.splits)

lemma set_rows_writes:
  "set_rows cx cy index rows g = Grid_set_all g (grid_writes cx cy index rows)"
  by (induction rows arbitrary: index g)
     (simp_all add: Grid_set_all_append set_cells_writes split: sum.splits)

lemma Grid_set_fields:
  assumes "Grid_set g x y v = Inr g'"
  shows "width g' = width g" "height g' = height g" "center g' = center g" "seed g' = seed g"
  using assms by (auto simp: Grid_set_def split: sum.splits)

lemma Grid_set_all_fields:
  assumes "Grid_set_all g ps = Inr g'"
  shows "width g' = width g \<and> height g' = height g \<and> center g' = center g \<and> seed g' = seed g"
  using assms
proof (induction ps arbitrary: g)
  case Nil
  then show ?case by simp
next
  case (Cons p ps)
  obtain x y where p: "p = (x, y)" by (cases p)
  from Cons.prems obtain g1 where g1: "Grid_set g x y True = Inr g1"
    and rest: "Grid_set_all g1 ps = Inr g'"
    by (auto simp: p split: sum.splits)
  from Cons.IH [OF rest] Grid_set_fields [OF g1] show ?case by simp
qed

lemma Grid_set_in_range:
  assumes inv: "grid_inv g"
    and x: "0 \<le> x" "x < width g" and y: "0 \<le> y" "y < height g"
  shows "\<exists>g'. Grid_set g x y True = Inr g' \<and> grid_inv g'
      \<and> (\<forall>x' y'. 0 \<le> x' \<and> x' < width g \<and> 0 \<le> y' \<and> y' < height g \<longrightarrow>
            cell g' x' y' = (cell g x' y' \<or> (x', y') = (x, y)))"
proof -
  let ?g' = "g\<lparr>array := (array g)[nat y := (array g ! nat y)[nat x := True]]\<rparr>"
  have xm: "x mod width g = x" and ym: "y mod height g = y"
    using x y by (simp_all add: mod_pos_pos_trivial)
  have set: "Grid_set g x y True = Inr ?g'"
    using Grid_access_in_range [of g x y True] inv x y by (simp add: xm ym)
  have len: "length (array g) = nat (height g)"
    and rows: "\<And>r. r < nat (height g) \<Longrightarrow> length (array g ! r) = nat (width g)"
    using inv by (simp_all add: grid_inv_def list_all_length)
  have "length ((array g)[nat y := (array g ! nat y)[nat x := True]] ! r) = nat (width g)"
    if "r < nat (height g)" for r
    using that rows [of r] rows [of "nat y"] len
    by (cases "r = nat y") (simp_all add: nth_list_update)
  then have inv': "grid_inv ?g'"
    using len by (simp add: grid_inv_def list_all_length)
  have "cell ?g' x' y' = (cell g x' y' \<or> (x', y') = (x, y))"
    if "0 \<le> x'" "x' < width g" "0 \<le> y'" "y' < height g" for x' y'
  proof -
    have "nat y' < length (array g)" "nat y < length (array g)"
      using that y len by simp_all
    moreover have "nat x' < length (array g ! nat y)" "nat x < length (array g ! nat y)"
      using that x y rows [of "nat y"] by simp_all
    moreover have "nat x' = nat x \<longleftrightarrow> x' = x" "nat y' = nat y \<longleftrightarrow> y' = y"
      using that x y by auto
    ultimately show ?thesis
      by (auto simp: cell_def nth_list_update)
  qed
  with set inv' show ?thesis by blast
qed

lemma Grid_set_all_in_range:
  assumes "grid_inv g"
    and "list_all (\<lambda>(x, y). 0 \<le> x \<and> x < width g \<and> 0 \<le> y \<and> y < height g) ps"
  shows "\<exists>g'. Grid_set_all g ps = Inr g' \<and> grid_inv g'
      \<and> (\<forall>x y. 0 \<le> x \<and> x < width g \<and> 0 \<le> y \<and> y < height g \<longrightarrow>
            cell g' x y = (cell g x y \<or> (x, y) \<in> set ps))"
  using assms
proof (induction ps arbitrary: g)
  case Nil
  then show ?case by simp
next
  case (Cons p ps)
  obtain x y where p: "p = (x, y)" by (cases p)
  have xy: "0 \<le> x" "x < width g" "0 \<le> y" "y < height g"
    using Cons.prems(2) by (simp_all add: p)
  from Grid_set_in_range [OF Cons.prems(1) xy]
  obtain g1 where g1: "Grid_set g x y True = Inr g1" and inv1: "grid_inv g1"
    and c1: "\<And>x' y'. 0 \<le> x' \<and> x' < width g \<and> 0 \<le> y' \<and> y' < height g \<Longrightarrow>
            cell g1 x' y' = (cell g x' y' \<or> (x', y') = (x, y))"
    by blast
  have dims: "width g1 = width g" "height g1 = height g"
    using Grid_set_fields [OF g1] by simp_all
  have "list_all (\<lambda>(x, y). 0 \<le> x \<and> x < width g1 \<and> 0 \<le> y \<and> y < height g1) ps"
    using Cons.prems(2) by (simp add: dims)
  from Cons.IH [OF inv1 this]
  obtain g' where g': "Grid_set_all g1 ps = Inr g'" and inv': "grid_inv g'"
    and c': "\<And>x' y'. 0 \<le> x' \<and> x' < width g \<and> 0 \<le> y' \<and> y' < height g \<Longrightarrow>
            cell g' x' y' = (cell g1 x' y' \<or> (x', y') \<in> set ps)"
    unfolding dims by blast
  have "Grid_set_all g (p # ps) = Inr g'" by (simp add: p g1 g')
  moreover have "cell g' x' y' = (cell g x' y' \<or> (x', y') \<in> set (p # ps))"
    if "0 \<le> x' \<and> x' < width g \<and> 0 \<le> y' \<and> y' < height g" for x' y'
    using c' [OF that] c1 [OF that] by (auto simp: p)
  ultimately show ?case using inv' by blast
qed


lemma row_writes_iff:
  "p \<in> set (row_writes cx cy index i row) \<longleftrightarrow>
     (\<exists>j < length row. row ! j \<and> p \<in> set (rotations cx cy index (i + int j - index)))"
proof (induction row arbitrary: i)
  case Nil
  then show ?case by simp
next
  case (Cons c row)
  have "(\<exists>j < length (c # row). (c # row) ! j
           \<and> p \<in> set (rotations cx cy index (i + int j - index))) \<longleftrightarrow>
        (c \<and> p \<in> set (rotations cx cy index (i - index)))
        \<or> (\<exists>j < length row. row ! j
              \<and> p \<in> set (rotations cx cy index (i + 1 + int j - index)))"
    (is "?L \<longleftrightarrow> ?A \<or> ?B")
  proof
    assume ?L
    then obtain j where j: "j < length (c # row)" "(c # row) ! j"
      "p \<in> set (rotations cx cy index (i + int j - index))" by blast
    show "?A \<or> ?B"
    proof (cases j)
      case 0
      with j show ?thesis by simp
    next
      case (Suc j')
      with j have "j' < length row" "row ! j'"
        "p \<in> set (rotations cx cy index (i + 1 + int j' - index))"
        by (simp_all add: algebra_simps)
      then show ?thesis by blast
    qed
  next
    assume "?A \<or> ?B"
    then show ?L
    proof
      assume ?A
      then have "0 < length (c # row)" "(c # row) ! 0"
        "p \<in> set (rotations cx cy index (i + int 0 - index))" by simp_all
      then show ?L by blast
    next
      assume ?B
      then obtain j where "j < length row" "row ! j"
        "p \<in> set (rotations cx cy index (i + 1 + int j - index))" by blast
      then have "Suc j < length (c # row)" "(c # row) ! Suc j"
        "p \<in> set (rotations cx cy index (i + int (Suc j) - index))"
        by (simp_all add: algebra_simps)
      then show ?L by blast
    qed
  qed
  then show ?case using Cons.IH [of "i + 1"] by auto
qed

lemma grid_writes_iff:
  "p \<in> set (grid_writes cx cy index rows) \<longleftrightarrow>
     (\<exists>k < length rows. \<exists>j < length (rows ! k). rows ! k ! j
        \<and> p \<in> set (rotations cx cy (index + int k) (int j - (index + int k))))"
proof (induction rows arbitrary: index)
  case Nil
  then show ?case by simp
next
  case (Cons row rows)
  let ?P = "\<lambda>rws ix k. \<exists>j < length (rws ! k). rws ! k ! j
        \<and> p \<in> set (rotations cx cy (ix + int k) (int j - (ix + int k)))"
  have "(\<exists>k < length (row # rows). ?P (row # rows) index k) \<longleftrightarrow>
        ?P (row # rows) index 0 \<or> (\<exists>k < length rows. ?P rows (index + 1) k)"
    (is "?L \<longleftrightarrow> ?A \<or> ?B")
  proof
    assume ?L
    then obtain k where k: "k < length (row # rows)" "?P (row # rows) index k" by blast
    show "?A \<or> ?B"
    proof (cases k)
      case 0
      with k show ?thesis by simp
    next
      case (Suc k')
      with k have "k' < length rows" "?P rows (index + 1) k'"
        by (simp_all add: algebra_simps)
      then show ?thesis by blast
    qed
  next
    assume "?A \<or> ?B"
    then show ?L
    proof
      assume ?A
      then show ?L by (intro exI [of _ 0]) simp
    next
      assume ?B
      then obtain k where "k < length rows" "?P rows (index + 1) k" by blast
      then have "Suc k < length (row # rows)" "?P (row # rows) index (Suc k)"
        by (simp_all add: algebra_simps)
      then show ?L by blast
    qed
  qed
  then show ?case
    using Cons.IH [of "index + 1"] by (simp add: row_writes_iff)
qed

lemma rotations_rotate:
  "(cx + a, cy + b) \<in> set (rotations cx cy rx ry) \<longleftrightarrow>
   (cx - b, cy + a) \<in> set (rotations cx cy rx ry)"
  by (auto simp: rotations_def)

lemma rotations_in_range:
  assumes "0 \<le> i" "i \<le> n - 1" "0 \<le> j" "j \<le> 2 * i"
    and "(x, y) \<in> set (rotations (n - 1) (n - 1) i (j - i))"
  shows "0 \<le> x \<and> x \<le> 2 * n - 2 \<and> 0 \<le> y \<and> y \<le> 2 * n - 2"
  using assms by (auto simp: rotations_def)

lemma grid_writes_rotate:
  "(cx + a, cy + b) \<in> set (grid_writes cx cy index rows) \<longleftrightarrow>
   (cx - b, cy + a) \<in> set (grid_writes cx cy index rows)"
  unfolding grid_writes_iff using rotations_rotate by blast


lemma create_grid_loop_rows:
  "fst (create_grid_loop rule cx cy index k row g rs) =
     set_rows cx cy index (row # fst (generate_loop rule k row rs)) g"
proof (induction k arbitrary: index row g rs)
  case 0
  then show ?case by (simp split: sum.splits)
next
  case (Suc k)
  then show ?case by (simp add: split_beta Let_def split: sum.splits)
qed

lemma center_div: "(n * 2 - 1) div 2 = n - (1::int)"
  by simp

lemma create_grid_unfold:
  assumes "generate_seed (self_seed self) now = Inr s"
  shows "fst (create_grid R self now n rs) =
     Grid_set_all ((Grid_init (n * 2 - 1) (n * 2 - 1) None)\<lparr>seed := Some s\<rparr>)
       (create_grid_writes R self now n)"
  by (simp add: create_grid_def create_grid_writes_def assms Let_def
        create_grid_loop_rows generate_rows set_rows_writes Grid_init_def)

lemma create_grid_seed_error:
  assumes "generate_seed (self_seed self) now = Inl e"
  shows "create_grid R self now n rs = (Inl e, rs)"
  by (simp add: create_grid_def assms Let_def)

lemma create_grid_writes_in_range:
  assumes n: "1 \<le> n" and p: "(x, y) \<in> set (create_grid_writes R self now n)"
  shows "0 \<le> x \<and> x \<le> 2 * n - 2 \<and> 0 \<le> y \<and> y \<le> 2 * n - 2"
proof (cases "generate_seed (self_seed self) now")
  case (Inl e)
  with p show ?thesis by (simp add: create_grid_writes_def)
next
  case (Inr s)
  let ?rows = "fst (generate (self_rule self) n (random_seed R s))"
  from p Inr have "(x, y) \<in> set (grid_writes (n - 1) (n - 1) 0 ?rows)"
    by (simp add: create_grid_writes_def center_div)
  then obtain k j where k: "k < length ?rows" and j: "j < length (?rows ! k)"
    and m: "(x, y) \<in> set (rotations (n - 1) (n - 1) (int k) (int j - int k))"
    unfolding grid_writes_iff by auto
  have "length ?rows = nat n"
    using n by (simp add: generate_rows length_generate_loop)
  with k have kn: "int k \<le> n - 1" by linarith
  have "length (?rows ! k) = 2 * k + 1" using k by (rule generate_nth_length)
  with j have jk: "int j \<le> 2 * int k" by linarith
  show ?thesis
    by (rule rotations_in_range [OF _ kn _ jk m]) simp_all
qed

lemma cell_Grid_init:
  assumes "0 \<le> x" "x < w" "0 \<le> y" "y < h"
  shows "\<not> cell ((Grid_init w h sd)\<lparr>seed := sd'\<rparr>) x y"
  using assms by (simp add: cell_def Grid_init_def)

lemma Grid_get_cell:
  assumes "grid_inv g" "0 \<le> x" "x < width g" "0 \<le> y" "y < height g"
  shows "Grid_get g x y = Inr (cell g x y)"
  using Grid_access_in_range [of g x y] assms
  by (simp add: cell_def mod_pos_pos_trivial)

lemma create_grid_result:
  assumes n: "1 \<le> n" and sd: "generate_seed (self_seed self) now = Inr s"
  shows "\<exists>g. fst (create_grid R self now n rs) = Inr g \<and> grid_inv g
     \<and> width g = 2 * n - 1 \<and> height g = 2 * n - 1 \<and> center g = (n - 1, n - 1)
     \<and> seed g = Some s
     \<and> (\<forall>x y. 0 \<le> x \<and> x < 2 * n - 1 \<and> 0 \<le> y \<and> y < 2 * n - 1 \<longrightarrow>
           cell g x y = ((x, y) \<in> set (create_grid_writes R self now n)))"
proof -
  let ?g0 = "(Grid_init (n * 2 - 1) (n * 2 - 1) None)\<lparr>seed := Some s\<rparr>"
  let ?ws = "create_grid_writes R self now n"
  have inv0: "grid_inv ?g0"
    using grid_inv_Grid_init [of "n * 2 - 1" "n * 2 - 1" None]
    by (simp add: grid_inv_def)
  have f0: "width ?g0 = 2 * n - 1" "height ?g0 = 2 * n - 1" "center ?g0 = (n - 1, n - 1)"
    "seed ?g0 = Some s"
    by (simp_all add: Grid_init_def)
  have "list_all (\<lambda>(x, y). 0 \<le> x \<and> x < width ?g0 \<and> 0 \<le> y \<and> y < height ?g0) ?ws"
    unfolding list_all_iff f0
    using create_grid_writes_in_range [OF n, of _ _ R self now] by fastforce
  from Grid_set_all_in_range [OF inv0 this]
  obtain g where g: "Grid_set_all ?g0 ?ws = Inr g" and inv: "grid_inv g"
    and c: "\<And>x y. 0 \<le> x \<and> x < 2 * n - 1 \<and> 0 \<le> y \<and> y < 2 * n - 1 \<Longrightarrow>
            cell g x y = (cell ?g0 x y \<or> (x, y) \<in> set ?ws)"
    unfolding f0 by blast
  have "cell g x y = ((x, y) \<in> set ?ws)"
    if "0 \<le> x \<and> x < 2 * n - 1 \<and> 0 \<le> y \<and> y < 2 * n - 1" for x y
    using c [OF that] cell_Grid_init [where x = x and y = y and w = "n * 2 - 1" and h = "n * 2 - 1"
        and sd = None and sd' = "Some s"] that
    by simp
  moreover have "fst (create_grid R self now n rs) = Inr g"
    using create_grid_unfold [OF sd] g by simp
  moreover have "width g = 2 * n - 1 \<and> height g = 2 * n - 1 \<and> center g = (n - 1, n - 1)
     \<and> seed g = Some s"
    using Grid_set_all_fields [OF g] f0 by simp
  ultimately show ?thesis using inv by blast
qed


lemma create_grid_writes_rotate:
  "(n - 1 + a, n - 1 + b) \<in> set (create_grid_writes R self now n) \<longleftrightarrow>
   (n - 1 - b, n - 1 + a) \<in> set (create_grid_writes R self now n)"
  by (cases "generate_seed (self_seed self) now")
     (simp_all add: create_grid_writes_def center_div grid_writes_rotate)

lemma generate_seed_error: "generate_seed sd now = Inl e \<Longrightarrow> e = ValueError"
  by (cases sd) (auto simp: generate_seed_def to_int_def py_int_def split: if_splits)

text \<open>
  C1, amended. For every \<open>n \<ge> 1\<close>, every rule, and every seed that
  \<open>_generate_seed\<close> turns into an integer (an integer, a non-empty string, or
  \<open>None\<close>), \<open>create_grid(n)\<close> returns a grid of width and height \<open>2n - 1\<close>, with
  \<open>2n - 1\<close> rows of \<open>2n - 1\<close> cells and center \<open>(n - 1, n - 1)\<close>, and the cell at
  \<open>(cx + a, cy + b)\<close> equals the cell at \<open>(cx - b, cy + a)\<close> for all offsets \<open>a\<close>,
  \<open>b\<close> inside the grid: the true cells are invariant under a quarter turn about the
  center. (The seed \<open>''\<close> is excluded: on it \<open>create_grid\<close> raises \<open>ValueError\<close>.)
\<close>

theorem create_grid_rotation_invariant:
  assumes "1 \<le> n" and "generate_seed (self_seed self) now = Inr s"
  shows "\<exists>g. fst (create_grid R self now n rs) = Inr g
     \<and> width g = 2 * n - 1 \<and> height g = 2 * n - 1 \<and> center g = (n - 1, n - 1)
     \<and> grid_inv g
     \<and> (\<forall>a b. - (n - 1) \<le> a \<and> a \<le> n - 1 \<and> - (n - 1) \<le> b \<and> b \<le> n - 1 \<longrightarrow>
           (\<exists>v. Grid_get g (n - 1 + a) (n - 1 + b) = Inr v
               \<and> Grid_get g (n - 1 - b) (n - 1 + a) = Inr v))"
proof -
  from create_grid_result [OF assms, of R rs]
  obtain g where g: "fst (create_grid R self now n rs) = Inr g" and inv: "grid_inv g"
    and dims: "width g = 2 * n - 1" "height g = 2 * n - 1" "center g = (n - 1, n - 1)"
    and c: "\<And>x y. 0 \<le> x \<and> x < 2 * n - 1 \<and> 0 \<le> y \<and> y < 2 * n - 1 \<Longrightarrow>
           cell g x y = ((x, y) \<in> set (create_grid_writes R self now n))"
    by blast
  have "Grid_get g (n - 1 + a) (n - 1 + b) = Inr (cell g (n - 1 + a) (n - 1 + b))
      \<and> Grid_get g (n - 1 - b) (n - 1 + a) = Inr (cell g (n - 1 + a) (n - 1 + b))"
    if r: "- (n - 1) \<le> a \<and> a \<le> n - 1 \<and> - (n - 1) \<le> b \<and> b \<le> n - 1" for a b
  proof -
    have 1: "Grid_get g (n - 1 + a) (n - 1 + b) = Inr (cell g (n - 1 + a) (n - 1 + b))"
      using r by (intro Grid_get_cell [OF inv]) (simp_all add: dims)
    have 2: "Grid_get g (n - 1 - b) (n - 1 + a) = Inr (cell g (n - 1 - b) (n - 1 + a))"
      using r by (intro Grid_get_cell [OF inv]) (simp_all add: dims)
    have "cell g (n - 1 + a) (n - 1 + b) =
        ((n - 1 + a, n - 1 + b) \<in> set (create_grid_writes R self now n))"
      using r by (intro c) simp
    moreover have "cell g (n - 1 - b) (n - 1 + a) =
        ((n - 1 - b, n - 1 + a) \<in> set (create_grid_writes R self now n))"
      using r by (intro c) simp
    ultimately have "cell g (n - 1 - b) (n - 1 + a) = cell g (n - 1 + a) (n - 1 + b)"
      using create_grid_writes_rotate [of n a b R self now] by simp
    with 1 2 show ?thesis by simp
  qed
  with g inv dims show ?thesis by blast
qed

text \<open>
  C9. For every \<open>n \<ge> 1\<close>: for each row index \<open>i\<close> in \<open>[0, n - 1]\<close> and each position
  \<open>j\<close> in \<open>[0, 2i]\<close> the four coordinates written for \<open>raw_x = i\<close>, \<open>raw_y = j - i\<close>
  about the center \<open>(n - 1, n - 1)\<close> lie in \<open>[0, 2n - 2]\<close>; every coordinate that
  \<open>create_grid(n)\<close> passes to \<open>grid.set\<close> lies in \<open>[0, 2n - 2]\<close>; the grid it returns is
  the result of exactly these calls; and \<open>create_grid(n)\<close> does not raise \<open>IndexError\<close>.
\<close>

theorem create_grid_writes_in_bounds:
  assumes "1 \<le> n"
  shows "(\<forall>i j. 0 \<le> i \<and> i \<le> n - 1 \<and> 0 \<le> j \<and> j \<le> 2 * i \<longrightarrow>
           list_all (\<lambda>(x, y). 0 \<le> x \<and> x \<le> 2 * n - 2 \<and> 0 \<le> y \<and> y \<le> 2 * n - 2)
             (rotations (n - 1) (n - 1) i (j - i)))
     \<and> list_all (\<lambda>(x, y). 0 \<le> x \<and> x \<le> 2 * n - 2 \<and> 0 \<le> y \<and> y \<le> 2 * n - 2)
         (create_grid_writes R self now n)
     \<and> (\<forall>s. generate_seed (self_seed self) now = Inr s \<longrightarrow>
           fst (create_grid R self now n rs) =
             Grid_set_all ((Grid_init (n * 2 - 1) (n * 2 - 1) None)\<lparr>seed := Some s\<rparr>)
               (create_grid_writes R self now n))
     \<and> fst (create_grid R self now n rs) \<noteq> Inl IndexError"
proof -
  have a: "list_all (\<lambda>(x, y). 0 \<le> x \<and> x \<le> 2 * n - 2 \<and> 0 \<le> y \<and> y \<le> 2 * n - 2)
             (rotations (n - 1) (n - 1) i (j - i))"
    if "0 \<le> i \<and> i \<le> n - 1 \<and> 0 \<le> j \<and> j \<le> 2 * i" for i j
    unfolding list_all_iff using rotations_in_range [of i n j] that by fastforce
  have b: "list_all (\<lambda>(x, y). 0 \<le> x \<and> x \<le> 2 * n - 2 \<and> 0 \<le> y \<and> y \<le> 2 * n - 2)
         (create_grid_writes R self now n)"
    unfolding list_all_iff
    using create_grid_writes_in_range [OF assms, of _ _ R self now] by fastforce
  have d: "fst (create_grid R self now n rs) \<noteq> Inl IndexError"
  proof (cases "generate_seed (self_seed self) now")
    case (Inl e)
    then show ?thesis
      using generate_seed_error [OF Inl] by (simp add: create_grid_seed_error)
  next
    case (Inr s)
    from create_grid_result [OF assms Inr, of R rs] show ?thesis by auto
  qed
  show ?thesis using a b d create_grid_unfold [of self now _ R n rs] by blast
qed

text \<open>
  C5. With an integer seed \<open>s\<close>, any rule that draws only from the shared random
  source, and any \<open>n\<close>, the result of \<open>create_grid(n)\<close> does not depend on the state
  in which the call finds the random source, nor on the clock: two runs return the
  same grid, bit for bit (for \<open>n \<ge> 1\<close> it is a grid, with \<open>seed = s\<close>), because
  \<open>random.seed(grid.seed)\<close> replaces the state before the first row is drawn.
\<close>

theorem create_grid_reproducible:
  "fst (create_grid R \<lparr>self_seed = IntSeed s, self_rule = rule\<rparr> now n rs) =
     fst (create_grid R \<lparr>self_seed = IntSeed s, self_rule = rule\<rparr> now' n rs')
   \<and> (1 \<le> n \<longrightarrow>
        (\<exists>g. fst (create_grid R \<lparr>self_seed = IntSeed s, self_rule = rule\<rparr> now n rs) = Inr g
            \<and> seed g = Some s))"
proof -
  let ?self = "\<lparr>self_seed = IntSeed s, self_rule = rule\<rparr>"
  have sd: "generate_seed (self_seed ?self) t = Inr s" for t
    by (simp add: generate_seed_def)
  have w: "create_grid_writes R ?self now n = create_grid_writes R ?self now' n"
    by (simp add: create_grid_writes_def generate_seed_def)
  have "fst (create_grid R ?self now n rs) = fst (create_grid R ?self now' n rs')"
    unfolding create_grid_unfold [OF sd] w ..
  moreover have "\<exists>g. fst (create_grid R ?self now n rs) = Inr g \<and> seed g = Some s"
    if "1 \<le> n"
    using create_grid_result [OF that sd, where R = R and rs = rs] by blast
  ultimately show ?thesis by blast
qed

text \<open>
  C6, amended. For every \<open>n \<le> 0\<close>, \<open>create_grid(n)\<close> returns no grid: it raises
  \<open>IndexError\<close>, from the first \<open>grid.set\<close> on a grid without rows, when the seed
  is turned into an integer, and the exception of \<open>_generate_seed\<close> otherwise. The
  program has no check of \<open>n\<close> and no exception of its own for it.
\<close>

theorem create_grid_nonpositive_fails:
  assumes "n \<le> 0"
  shows "fst (create_grid R self now n rs) =
       (case generate_seed (self_seed self) now of
          Inl e \<Rightarrow> Inl e
        | Inr s \<Rightarrow> Inl IndexError)
     \<and> (\<forall>g. fst (create_grid R self now n rs) \<noteq> Inr g)"
proof (cases "generate_seed (self_seed self) now")
  case (Inl e)
  then show ?thesis by (simp add: create_grid_seed_error)
next
  case (Inr s)
  have rows: "fst (generate (self_rule self) n (random_seed R s)) = [[True]]"
    using assms by (simp add: generate_rows)
  have empty: "array ((Grid_init (n * 2 - 1) (n * 2 - 1) None)\<lparr>seed := Some s\<rparr>) = []"
    using assms by (simp add: Grid_init_def)
  have "fst (create_grid R self now n rs) = Inl IndexError"
    unfolding create_grid_unfold [OF Inr]
    by (simp add: create_grid_writes_def Inr rows rotations_def Grid_set_def empty
          py_index_def)
  then show ?thesis by (simp add: Inr)
qed

text \<open>
  C8, amended. \<open>_generate_seed\<close> returns an integer seed unchanged; for a non-empty
  string it returns the integer whose decimal digits are the decimal representations of
  the byte values of its characters, one after the other; and whenever \<open>create_grid\<close>
  returns a grid, the \<open>seed\<close> of the grid is the integer \<open>_generate_seed\<close> returned.
\<close>

theorem generate_seed_normalises:
  "generate_seed (IntSeed k) now = Inr k
   \<and> (s \<noteq> [] \<longrightarrow>
        generate_seed (StrSeed s) now = Inr (int (concat_decimal (map py_ord s))))
   \<and> (\<forall>g. fst (create_grid R self now n rs) = Inr g \<longrightarrow>
        (\<exists>v. generate_seed (self_seed self) now = Inr v \<and> seed g = Some v))"
proof -
  have "\<exists>v. generate_seed (self_seed self) now = Inr v \<and> seed g = Some v"
    if g: "fst (create_grid R self now n rs) = Inr g" for g
  proof (cases "generate_seed (self_seed self) now")
    case (Inl e)
    with g show ?thesis by (simp add: create_grid_seed_error)
  next
    case (Inr v)
    from g have "Grid_set_all ((Grid_init (n * 2 - 1) (n * 2 - 1) None)\<lparr>seed := Some v\<rparr>)
        (create_grid_writes R self now n) = Inr g"
      unfolding create_grid_unfold [OF Inr] .
    from Grid_set_all_fields [OF this] Inr show ?thesis by simp
  qed
  then show ?thesis
    by (simp add: generate_seed_def to_int_value)
qed


text \<open>
  The claim C1 as it is written, for every seed, fails at the empty string:
  \<open>Generator(seed='').create_grid(1)\<close> raises \<open>ValueError\<close> in \<open>int('')\<close> and returns
  no grid.
\<close>

theorem create_grid_rotation_invariant_counterexample:
  "fst (create_grid counter_random \<lparr>self_seed = StrSeed [], self_rule = rule150_rule\<rparr>
          ''0.0'' 1 0) = Inl ValueError"
  by (simp add: create_grid_def generate_seed_def to_int_def py_int_def Let_def)

theorem create_grid_rotation_invariant_witness:
  "fst (create_grid counter_random \<lparr>self_seed = IntSeed 42, self_rule = rule150_rule\<rparr>
          ''0.0'' 3 0) =
     Inr \<lparr>width = 5, height = 5, center = (2, 2), seed = Some 42,
          array = [[True, False, True, False, True],
                   [False, True, True, True, False],
                   [True, True, True, True, True],
                   [False, True, True, True, False],
                   [True, False, True, False, True]]\<rparr>
   \<and> (\<exists>g. fst (create_grid counter_random
                 \<lparr>self_seed = IntSeed 42, self_rule = rule150_rule\<rparr> ''0.0'' 3 0) = Inr g
          \<and> width g = 5 \<and> height g = 5 \<and> center g = (2, 2)
          \<and> (\<exists>v. Grid_get g 4 3 = Inr v \<and> Grid_get g 1 4 = Inr v))"
proof -
  let ?self = "\<lparr>self_seed = IntSeed 42, self_rule = rule150_rule\<rparr> :: nat generator"
  have n: "(1::int) \<le> 3" by simp
  have sd: "generate_seed (self_seed ?self) ''0.0'' = Inr 42"
    by (simp add: generate_seed_def)
  have ev: "fst (create_grid counter_random ?self ''0.0'' 3 0) =
     Inr \<lparr>width = 5, height = 5, center = (2, 2), seed = Some 42,
          array = [[True, False, True, False, True],
                   [False, True, True, True, False],
                   [True, True, True, True, True],
                   [False, True, True, True, False],
                   [True, False, True, False, True]]\<rparr>"
    by code_simp
  from create_grid_rotation_invariant [OF n sd, of counter_random 0]
  obtain g where g: "fst (create_grid counter_random ?self ''0.0'' 3 0) = Inr g"
    and d: "width g = 5" "height g = 5" "center g = (2, 2)"
    and r: "\<And>a b. - 2 \<le> a \<and> a \<le> 2 \<and> - 2 \<le> b \<and> b \<le> 2 \<Longrightarrow>
           \<exists>v. Grid_get g (2 + a) (2 + b) = Inr v \<and> Grid_get g (2 - b) (2 + a) = Inr v"
    by auto
  from r [of 2 1] have "\<exists>v. Grid_get g 4 3 = Inr v \<and> Grid_get g 1 4 = Inr v" by simp
  with g d ev show ?thesis by blast
qed

theorem create_grid_writes_in_bounds_witness:
  "create_grid_writes counter_random \<lparr>self_seed = IntSeed 42, self_rule = rule150_rule\<rparr>
       ''0.0'' 2 =
     [(1, 1), (1, 1), (1, 1), (1, 1),
      (2, 0), (0, 2), (2, 2), (0, 0),
      (2, 1), (0, 1), (1, 2), (1, 0),
      (2, 2), (0, 0), (0, 2), (2, 0)]
   \<and> list_all (\<lambda>(x, y). 0 \<le> x \<and> x \<le> 2 \<and> 0 \<le> y \<and> y \<le> 2)
       (create_grid_writes counter_random
          \<lparr>self_seed = IntSeed 42, self_rule = rule150_rule\<rparr> ''0.0'' 2)
   \<and> list_all (\<lambda>(x, y). 0 \<le> x \<and> x \<le> 2 \<and> 0 \<le> y \<and> y \<le> 2) (rotations 1 1 1 (2 - 1))
   \<and> fst (create_grid counter_random \<lparr>self_seed = IntSeed 42, self_rule = rule150_rule\<rparr>
            ''0.0'' 2 0) \<noteq> Inl IndexError"
proof -
  let ?self = "\<lparr>self_seed = IntSeed 42, self_rule = rule150_rule\<rparr> :: nat generator"
  have n: "(1::int) \<le> 2" by simp
  have ev: "create_grid_writes counter_random ?self ''0.0'' 2 =
     [(1, 1), (1, 1), (1, 1), (1, 1),
      (2, 0), (0, 2), (2, 2), (0, 0),
      (2, 1), (0, 1), (1, 2), (1, 0),
      (2, 2), (0, 0), (0, 2), (2, 0)]"
    by code_simp
  from create_grid_writes_in_bounds [OF n, of counter_random ?self "''0.0''" 0]
  have "(\<forall>i j. 0 \<le> i \<and> i \<le> 1 \<and> 0 \<le> j \<and> j \<le> 2 * i \<longrightarrow>
           list_all (\<lambda>(x, y). 0 \<le> x \<and> x \<le> 2 \<and> 0 \<le> y \<and> y \<le> 2)
             (rotations 1 1 i (j - i)))"
    and w: "list_all (\<lambda>(x, y). 0 \<le> x \<and> x \<le> 2 \<and> 0 \<le> y \<and> y \<le> 2)
         (create_grid_writes counter_random ?self ''0.0'' 2)"
    and e: "fst (create_grid counter_random ?self ''0.0'' 2 0) \<noteq> Inl IndexError"
    by simp_all
  then have "list_all (\<lambda>(x, y). 0 \<le> x \<and> x \<le> 2 \<and> 0 \<le> y \<and> y \<le> 2) (rotations 1 1 1 (2 - 1))"
    by (elim allE [of _ 1] allE [of _ 2]) simp
  with ev w e show ?thesis by simp
qed

theorem create_grid_reproducible_witness:
  "fst (create_grid counter_random
          \<lparr>self_seed = IntSeed 2000, self_rule = rule150randomized counter_random\<rparr>
          ''0.0'' 2 0) =
     fst (create_grid counter_random
          \<lparr>self_seed = IntSeed 2000, self_rule = rule150randomized counter_random\<rparr>
          ''1.5'' 2 17)
   \<and> fst (create_grid counter_random
          \<lparr>self_seed = IntSeed 2000, self_rule = rule150randomized counter_random\<rparr>
          ''0.0'' 2 0) =
     Inr \<lparr>width = 3, height = 3, center = (1, 1), seed = Some 2000,
          array = [[True, False, True], [False, True, False], [True, False, True]]\<rparr>"
proof -
  have ev: "fst (create_grid counter_random
          \<lparr>self_seed = IntSeed 2000, self_rule = rule150randomized counter_random\<rparr>
          ''0.0'' 2 0) =
     Inr \<lparr>width = 3, height = 3, center = (1, 1), seed = Some 2000,
          array = [[True, False, True], [False, True, False], [True, False, True]]\<rparr>"
    by code_simp
  from create_grid_reproducible [of counter_random 2000 "rule150randomized counter_random"
      "''0.0''" 2 0 "''1.5''" 17] ev
  show ?thesis by simp
qed

text \<open>
  The claim C6 as it is written names a failure for an invalid size; the failure of
  \<open>create_grid(0)\<close> is the \<open>IndexError\<close> of a list access out of range, the same
  exception that \<open>Grid.get\<close> and \<open>Grid.set\<close> raise out of bounds.
\<close>

theorem create_grid_nonpositive_fails_counterexample:
  "fst (create_grid counter_random \<lparr>self_seed = IntSeed 42, self_rule = rule150_rule\<rparr>
          ''0.0'' 0 0) = Inl IndexError"
  by code_simp

theorem create_grid_nonpositive_fails_witness:
  "(- 3 :: int) \<le> 0
   \<and> fst (create_grid counter_random \<lparr>self_seed = IntSeed 42, self_rule = rule150_rule\<rparr>
          ''0.0'' (- 3) 0) = Inl IndexError
   \<and> fst (create_grid counter_random \<lparr>self_seed = StrSeed [], self_rule = rule150_rule\<rparr>
          ''0.0'' (- 3) 0) = Inl ValueError"
  using create_grid_nonpositive_fails [of "- 3" counter_random
      "\<lparr>self_seed = IntSeed 42, self_rule = rule150_rule\<rparr>" "''0.0''" 0]
    create_grid_nonpositive_fails [of "- 3" counter_random
      "\<lparr>self_seed = StrSeed [], self_rule = rule150_rule\<rparr>" "''0.0''" 0]
  by (simp add: generate_seed_def to_int_Nil)

text \<open>
  The claim C8 as it is written, for every string seed, fails at the empty string:
  \<open>_generate_seed('')\<close> raises \<open>ValueError\<close> and returns no integer.
\<close>

theorem generate_seed_normalises_counterexample:
  "generate_seed (StrSeed []) ''0.0'' = Inl ValueError"
  by (simp add: generate_seed_def to_int_Nil)

theorem generate_seed_normalises_witness:
  "generate_seed (IntSeed 42) ''0.0'' = Inr 42
   \<and> ''ab'' \<noteq> []
   \<and> generate_seed (StrSeed ''ab'') ''0.0'' = Inr 9798
   \<and> (\<exists>g. fst (create_grid counter_random
                 \<lparr>self_seed = StrSeed ''ab'', self_rule = rule150_rule\<rparr> ''0.0'' 1 0) = Inr g
          \<and> seed g = Some 9798)"
proof -
  let ?self = "\<lparr>self_seed = StrSeed ''ab'', self_rule = rule150_rule\<rparr> :: nat generator"
  have v: "int (concat_decimal (map py_ord ''ab'')) = 9798" by code_simp
  have ev: "fst (create_grid counter_random ?self ''0.0'' 1 0) =
      Inr \<lparr>width = 1, height = 1, center = (0, 0), seed = Some 9798, array = [[True]]\<rparr>"
    by code_simp
  from generate_seed_normalises [of 42 "''0.0''" "''ab''" counter_random ?self 1 0] v ev
  show ?thesis by simp
qed

end
